theory Spec2Isabelle
  imports Main "HOL-Library.Sublist" "HOL-Library.Multiset"
begin

section \<open>Python strings\<close>

text \<open>
  A Python \<open>str\<close> is modelled as a \<^typ>\<open>string\<close>: the list of its code points, for
  the code points below 256 that \<^typ>\<open>char\<close> offers (ASCII and Latin-1), so that
  \<^const>\<open>length\<close> is Python's \<open>len\<close> and \<^const>\<open>take\<close> is the slice \<open>s[:n]\<close>.
\<close>

definition lower_char :: "char \<Rightarrow> char" where
  \<comment> \<open>\<open>str.lower\<close> on one code point below 256: A-Z, and the Latin-1 capitals
      U+00C0..U+00DE without the multiplication sign U+00D7, move up by 32.\<close>
  "lower_char c =
     (let n = (of_char c :: nat)
      in if (65 \<le> n \<and> n \<le> 90) \<or> (192 \<le> n \<and> n \<le> 222 \<and> n \<noteq> 215)
         then char_of (n + 32) else c)"

definition lower :: "string \<Rightarrow> string" where
  "lower s = map lower_char s"

definition upper_char :: "char \<Rightarrow> char" where
  \<comment> \<open>\<open>str.upper\<close> on the ASCII letters; the source applies it to the extension
      literals only.\<close>
  "upper_char c =
     (let n = (of_char c :: nat)
      in if 97 \<le> n \<and> n \<le> 122 then char_of (n - 32) else c)"

definition upper :: "string \<Rightarrow> string" where
  "upper s = map upper_char s"

fun startswith :: "string \<Rightarrow> string \<Rightarrow> bool" where
  "startswith s [] = True"
| "startswith [] (k # ks) = False"
| "startswith (c # cs) (k # ks) = (c = k \<and> startswith cs ks)"

fun str_in :: "string \<Rightarrow> string \<Rightarrow> bool" where
  \<comment> \<open>\<open>keyword in s\<close>: the keyword occurs in \<open>s\<close> as a contiguous substring.\<close>
  "str_in keyword [] = (keyword = [])"
| "str_in keyword (c # cs) = (startswith (c # cs) keyword \<or> str_in keyword cs)"

definition endswith :: "string \<Rightarrow> string \<Rightarrow> bool" where
  "endswith s suf =
     (length suf \<le> length s \<and> drop (length s - length suf) s = suf)"

definition isspace :: "char \<Rightarrow> bool" where
  \<comment> \<open>The code points below 256 that \<open>str.split()\<close> and \<open>str.strip()\<close> treat as
      white space: U+0009..U+000D, U+001C..U+0020, U+0085 and U+00A0.\<close>
  "isspace c =
     (let n = (of_char c :: nat)
      in (9 \<le> n \<and> n \<le> 13) \<or> (28 \<le> n \<and> n \<le> 32) \<or> n = 133 \<or> n = 160)"

fun split_words :: "string \<Rightarrow> string \<Rightarrow> string list" where
  \<comment> \<open>The scan of \<open>s.split()\<close>, with the word read so far.\<close>
  "split_words word [] = (if word = [] then [] else [word])"
| "split_words word (c # cs) =
     (if isspace c then (if word = [] then split_words [] cs else word # split_words [] cs)
      else split_words (word @ [c]) cs)"

definition split :: "string \<Rightarrow> string list" where
  \<comment> \<open>\<open>s.split()\<close>: the maximal runs of characters that are not white space.\<close>
  "split s = split_words [] s"

fun split_fields :: "char \<Rightarrow> string \<Rightarrow> string \<Rightarrow> string list" where
  "split_fields sep field [] = [field]"
| "split_fields sep field (c # cs) =
     (if c = sep then field # split_fields sep [] cs else split_fields sep (field @ [c]) cs)"

definition split_on :: "char \<Rightarrow> string \<Rightarrow> string list" where
  \<comment> \<open>\<open>s.split(sep)\<close> for a separator of one character: empty fields are kept.\<close>
  "split_on sep s = split_fields sep [] s"

fun join :: "string \<Rightarrow> string list \<Rightarrow> string" where
  \<comment> \<open>\<open>sep.join(xs)\<close>\<close>
  "join sep [] = []"
| "join sep [x] = x"
| "join sep (x # y # ys) = x @ sep @ join sep (y # ys)"

definition strip :: "string \<Rightarrow> string" where
  "strip s = rev (dropWhile isspace (rev (dropWhile isspace s)))"

definition digit :: "nat \<Rightarrow> char" where
  "digit d = char_of (48 + d)"

fun str_nat :: "nat \<Rightarrow> string" where
  \<comment> \<open>\<open>str(n)\<close> for a natural number: its decimal digits.\<close>
  "str_nat n = (if n < 10 then [digit n] else str_nat (n div 10) @ [digit (n mod 10)])"

declare str_nat.simps [simp del]

definition rfind :: "string \<Rightarrow> char \<Rightarrow> int" where
  \<comment> \<open>\<open>s.rfind(c)\<close>: the index of the last occurrence of \<open>c\<close>, or -1.\<close>
  "rfind s c =
     (let k = length (takeWhile (\<lambda>x. x \<noteq> c) (rev s))
      in if k = length s then - 1 else int (length s) - 1 - int k)"

section \<open>Exceptions\<close>

text \<open>
  An exception of class \<open>Exception\<close> is modelled by its message \<open>str(e)\<close>. A
  computation that may raise returns \<open>Inl e\<close> for \<open>raise e\<close> and \<open>Inr v\<close> for
  \<open>return v\<close>, paired with the state it leaves.
\<close>

datatype exn = Exception (str: string)

definition try_except ::
  "(exn + 'a) \<times> 's \<Rightarrow> (exn \<Rightarrow> 's \<Rightarrow> (exn + 'a) \<times> 's) \<Rightarrow> (exn + 'a) \<times> 's" where
  \<comment> \<open>\<open>try: body  except Exception as e: handler\<close>\<close>
  "try_except body handler =
     (case body of (Inl e, s) \<Rightarrow> handler e s | (Inr v, s) \<Rightarrow> (Inr v, s))"

section \<open>Paths and the file system\<close>

text \<open>
  A \<open>pathlib.Path\<close> is modelled by its string, with POSIX separators. \<open>path_name\<close>
  and \<open>path_suffix\<close> follow \<open>PurePath.name\<close> and \<open>PurePath.suffix\<close>: the name is
  the last component that is neither empty nor \<open>.\<close>, the suffix is the name from its
  last dot on when that dot is neither its first nor its last character.
\<close>

definition path_name :: "string \<Rightarrow> string" where
  "path_name p =
     (case filter (\<lambda>part. part \<noteq> [] \<and> part \<noteq> ''.'') (split_on CHR ''/'' p) of
        [] \<Rightarrow> []
      | part # parts \<Rightarrow> last (part # parts))"

definition path_suffix :: "string \<Rightarrow> string" where
  "path_suffix p =
     (let name = path_name p; i = rfind name CHR ''.''
      in if 0 < i \<and> i < int (length name) - 1 then drop (nat i) name else [])"

text \<open>
  The string of a path is not always the string the path was made from: \<open>Path\<close> drops
  empty components, components that are a single dot, and a trailing separator, and it
  keeps a root of two separators apart from a root of one. \<open>splitroot\<close> is
  \<open>posixpath.splitroot\<close> without the drive, which is always empty; \<open>path_tail\<close> is
  the list of components \<open>Path\<close> keeps; \<open>format_path\<close> puts a root and a tail
  together as \<open>str\<close> does, the string of the path without root and tail being a dot.
\<close>

definition splitroot :: "string \<Rightarrow> string \<times> string" where
  "splitroot p =
     (if take 1 p \<noteq> ''/'' then ([], p)
      else if take 1 (drop 1 p) \<noteq> ''/'' \<or> take 1 (drop 2 p) = ''/'' then (''/'', drop 1 p)
      else (take 2 p, drop 2 p))"

definition path_tail :: "string \<Rightarrow> string list" where
  "path_tail p =
     filter (\<lambda>part. part \<noteq> [] \<and> part \<noteq> ''.'') (split_on CHR ''/'' (snd (splitroot p)))"

definition format_path :: "string \<Rightarrow> string list \<Rightarrow> string" where
  "format_path root tail =
     (if root \<noteq> [] then root @ join ''/'' tail
      else if tail = [] then ''.''
      else join ''/'' tail)"

definition path_str :: "string \<Rightarrow> string" where
  \<comment> \<open>\<open>str(Path(p))\<close>\<close>
  "path_str p = format_path (fst (splitroot p)) (path_tail p)"

definition joinpath :: "string \<Rightarrow> string \<Rightarrow> string" where
  \<comment> \<open>\<open>str(Path(dir_path) / name)\<close> for the name of an entry of the directory, which
      is one component: the path \<open>glob\<close> yields for the entry.\<close>
  "joinpath dir_path name =
     format_path (fst (splitroot dir_path)) (path_tail dir_path @ [name])"

text \<open>
  What the program reads from outside: the file system and the extraction libraries
  (PyPDF2, python-docx, PIL with pytesseract). Each may raise.
  \<^item> \<open>path_exists\<close>: \<open>Path.exists()\<close>;
  \<^item> \<open>stat_size\<close>: \<open>Path.stat().st_size\<close>;
  \<^item> \<open>read_text\<close>: \<open>Path.read_text(encoding='utf-8', errors='ignore')\<close>;
  \<^item> \<open>pdf_pages\<close>: opening the file, \<open>PdfReader(file).pages\<close> and \<open>extract_text()\<close>
    of each page in turn;
  \<^item> \<open>docx_paragraphs\<close>: \<open>Document(file_path).paragraphs\<close> and the \<open>text\<close> of each;
  \<^item> \<open>ocr_text\<close>: \<open>pytesseract.image_to_string(Image.open(file_path))\<close>;
  \<^item> \<open>scandir\<close>: the names of the entries of a directory, in the order the file
    system enumerates them;
  \<^item> \<open>case_sensitive\<close>: whether \<open>Path.glob\<close> compares names with case (POSIX) or
    without (Windows);
  \<^item> \<open>set_order\<close>: the order in which this run of the interpreter iterates over the
    set literal \<open>supported_extensions\<close>.
\<close>

record world =
  path_exists :: "string \<Rightarrow> exn + bool"
  stat_size :: "string \<Rightarrow> exn + nat"
  read_text :: "string \<Rightarrow> exn + string"
  pdf_pages :: "string \<Rightarrow> exn + string list"
  docx_paragraphs :: "string \<Rightarrow> exn + string list"
  ocr_text :: "string \<Rightarrow> exn + string"
  scandir :: "string \<Rightarrow> exn + string list"
  case_sensitive :: bool
  set_order :: "string list"

section \<open>The document classifier\<close>

text \<open>
  The state a method of \<open>DocumentClassificationFramework\<close> can change: the records the
  logger \<open>self.logger\<close> has received through \<open>error\<close>, and the lines printed to the
  standard output. Every method takes the state and returns it with its result.
\<close>

record state =
  logged :: "string list"
  printed :: "string list"

definition log_error :: "string \<Rightarrow> state \<Rightarrow> state" where
  "log_error msg s = s\<lparr>logged := logged s @ [msg]\<rparr>"

definition print :: "string \<Rightarrow> state \<Rightarrow> state" where
  "print line s = s\<lparr>printed := printed s @ [line]\<rparr>"

definition financial_keywords :: "string list" where
  "financial_keywords =
     [''invoice'', ''payment'', ''receipt'', ''budget'', ''financial'', ''cost'', ''price'',
      ''total'', ''amount'']"

definition legal_keywords :: "string list" where
  "legal_keywords =
     [''contract'', ''agreement'', ''legal'', ''terms'', ''policy'', ''clause'', ''liability'',
      ''copyright'']"

definition hr_keywords :: "string list" where
  "hr_keywords =
     [''resume'', ''cv'', ''employee'', ''hr'', ''payroll'', ''benefits'', ''hiring'',
      ''interview'']"

definition tech_keywords :: "string list" where
  "tech_keywords =
     [''technical'', ''specification'', ''manual'', ''guide'', ''documentation'', ''api'',
      ''software'']"

definition any_keyword :: "string list \<Rightarrow> string \<Rightarrow> string \<Rightarrow> bool" where
  \<comment> \<open>\<open>any(keyword in content_lower or keyword in filename_lower for keyword in keywords)\<close>\<close>
  "any_keyword keywords content_lower filename_lower =
     list_ex (\<lambda>keyword. str_in keyword content_lower \<or> str_in keyword filename_lower) keywords"

definition classify_document :: "state \<Rightarrow> string \<Rightarrow> string \<Rightarrow> string \<times> state" where
  "classify_document s content filename =
     (let content_lower = lower content;
          filename_lower = lower filename
      in if any_keyword financial_keywords content_lower filename_lower then (''financial'', s)
         else if any_keyword legal_keywords content_lower filename_lower then (''legal'', s)
         else if any_keyword hr_keywords content_lower filename_lower then (''hr'', s)
         else if any_keyword tech_keywords content_lower filename_lower then (''technical'', s)
         else (''general'', s))"

definition generate_summary :: "state \<Rightarrow> string \<Rightarrow> string \<Rightarrow> string \<times> state" where
  "generate_summary s content category =
     (let word_count = length (split content);
          sentences = take 3 (split_on CHR ''.'' content);
          first_part = strip (join ''. '' sentences);
          first_part' = (if length first_part > 200 then take 200 first_part @ ''...''
                         else first_part);
          summary = ''This is a '' @ category @ '' document with '' @ str_nat word_count
                    @ '' words. '';
          summary' = (if first_part' \<noteq> [] then summary @ ''Content preview: '' @ first_part'
                      else summary)
      in (summary', s))"

subsection \<open>Text extraction\<close>

definition extract_pdf_text :: "world \<Rightarrow> state \<Rightarrow> string \<Rightarrow> (exn + string) \<times> state" where
  "extract_pdf_text w s file_path =
     try_except
       (case pdf_pages w file_path of
          Inl e \<Rightarrow> (Inl e, s)
        | Inr pages \<Rightarrow> (Inr (concat (map (\<lambda>page. page @ [CHR 0x0A]) pages)), s))
       (\<lambda>e s'. (Inr [], log_error (''PDF extraction error: '' @ str e) s'))"

definition extract_word_text :: "world \<Rightarrow> state \<Rightarrow> string \<Rightarrow> (exn + string) \<times> state" where
  "extract_word_text w s file_path =
     try_except
       (case docx_paragraphs w file_path of
          Inl e \<Rightarrow> (Inl e, s)
        | Inr paragraphs \<Rightarrow> (Inr (join [CHR 0x0A] paragraphs), s))
       (\<lambda>e s'. (Inr [], log_error (''Word extraction error: '' @ str e) s'))"

definition extract_image_text :: "world \<Rightarrow> state \<Rightarrow> string \<Rightarrow> (exn + string) \<times> state" where
  "extract_image_text w s file_path =
     try_except
       (case ocr_text w file_path of
          Inl e \<Rightarrow> (Inl e, s)
        | Inr text \<Rightarrow> (Inr text, s))
       (\<lambda>e s'. (Inr [], log_error (''OCR extraction error: '' @ str e) s'))"

definition extract_text :: "world \<Rightarrow> state \<Rightarrow> string \<Rightarrow> (exn + string) \<times> state" where
  "extract_text w s file_path =
     (let extension = lower (path_suffix file_path)
      in try_except
           (if extension = ''.pdf'' then extract_pdf_text w s file_path
            else if extension \<in> set [''.doc'', ''.docx''] then extract_word_text w s file_path
            else if extension \<in> set [''.jpg'', ''.jpeg'', ''.png'']
              then extract_image_text w s file_path
            else if extension = ''.txt'' then (read_text w file_path, s)
            else (Inr [], s))
           (\<lambda>e s'. (Inr [],
              log_error (''Text extraction error for '' @ path_str file_path @ '': '' @ str e)
                s')))"

subsection \<open>One document\<close>

text \<open>
  The dictionary \<open>process_document\<close> returns has one of two shapes: \<open>success\<close> false
  with an \<open>error\<close>, or \<open>success\<close> true with the six fields of the document.
\<close>

datatype doc_result =
  Failure (error: string)
| Success (file_name: string) (file_size: nat) (word_count: nat) (category: string)
    (summary: string) (content_preview: string)

fun success :: "doc_result \<Rightarrow> bool" where
  "success (Failure _) = False"
| "success (Success _ _ _ _ _ _) = True"

definition process_document :: "world \<Rightarrow> state \<Rightarrow> string \<Rightarrow> (exn + doc_result) \<times> state" where
  "process_document w s file_path =
     try_except
       (let s1 = print (''Processing: '' @ file_path) s
        in case path_exists w file_path of
             Inl e \<Rightarrow> (Inl e, s1)
           | Inr found \<Rightarrow>
               if \<not> found then (Inr (Failure (''File not found: '' @ file_path)), s1)
               else (case extract_text w s1 file_path of
                       (Inl e, s2) \<Rightarrow> (Inl e, s2)
                     | (Inr content, s2) \<Rightarrow>
                         if content = []
                         then (Inr (Failure ''Could not extract text from document''), s2)
                         else (let (category, s3) =
                                     classify_document s2 content (path_name file_path);
                                   (summary, s4) = generate_summary s3 content category
                               in case stat_size w file_path of
                                    Inl e \<Rightarrow> (Inl e, s4)
                                  | Inr st_size \<Rightarrow>
                                      (let result =
                                             Success (path_name file_path) st_size
                                               (length (split content)) category summary
                                               (if length content > 200
                                                then take 200 content @ ''...'' else content);
                                           s5 = print (''Successfully processed: ''
                                                       @ path_name file_path) s4;
                                           s6 = print (''Category: '' @ category) s5;
                                           s7 = print (''Word count: ''
                                                       @ str_nat (word_count result)) s6
                                       in (Inr result, s7)))))
       (\<lambda>e s'. (Inr (Failure (str e)),
          log_error (''Error processing '' @ file_path @ '': '' @ str e) s'))"

subsection \<open>A directory\<close>

definition supported_extensions :: "string set" where
  "supported_extensions = {''.pdf'', ''.doc'', ''.docx'', ''.txt'', ''.jpg'', ''.jpeg'', ''.png''}"

definition fnmatch_star :: "bool \<Rightarrow> string \<Rightarrow> string \<Rightarrow> bool" where
  \<comment> \<open>Whether a name matches the pattern \<open>*\<close> followed by the literal \<open>ext\<close> (the
      extensions hold no pattern character): the name ends with \<open>ext\<close>, compared with
      case or without.\<close>
  "fnmatch_star with_case name ext =
     (if with_case then endswith name ext else endswith (lower name) (lower ext))"

definition glob :: "world \<Rightarrow> string \<Rightarrow> string \<Rightarrow> exn + string list" where
  \<comment> \<open>\<open>dir_path.glob(f"*{ext}")\<close>: the entries of the directory whose name matches, each
      as the path of the entry.\<close>
  "glob w dir_path ext =
     (case scandir w dir_path of
        Inl e \<Rightarrow> Inl e
      | Inr names \<Rightarrow>
          Inr (map (joinpath dir_path)
                 (filter (\<lambda>name. fnmatch_star (case_sensitive w) name ext) names)))"

fun find_files :: "world \<Rightarrow> string \<Rightarrow> string list \<Rightarrow> string list \<Rightarrow> exn + string list" where
  \<comment> \<open>The loop \<open>for ext in supported_extensions\<close> over the extensions still to visit,
      with the list \<open>files\<close> built so far.\<close>
  "find_files w dir_path [] files = Inr files"
| "find_files w dir_path (ext # exts) files =
     (case glob w dir_path ext of
        Inl e \<Rightarrow> Inl e
      | Inr found \<Rightarrow>
          (case glob w dir_path (upper ext) of
             Inl e \<Rightarrow> Inl e
           | Inr found_upper \<Rightarrow> find_files w dir_path exts (files @ found @ found_upper)))"

fun process_files ::
  "world \<Rightarrow> state \<Rightarrow> string list \<Rightarrow> doc_result list \<Rightarrow> nat \<Rightarrow> nat
     \<Rightarrow> (exn + doc_result list \<times> nat \<times> nat) \<times> state" where
  \<comment> \<open>The loop \<open>for file_path in files\<close> over the files still to process, with
      \<open>results\<close>, \<open>successful\<close> and \<open>failed\<close> as they stand.\<close>
  "process_files w s [] results successful failed = (Inr (results, successful, failed), s)"
| "process_files w s (file_path # files) results successful failed =
     (case process_document w s file_path of
        (Inl e, s') \<Rightarrow> (Inl e, s')
      | (Inr result, s') \<Rightarrow>
          if success result
          then process_files w s' files (results @ [result]) (successful + 1) failed
          else process_files w s' files (results @ [result]) successful (failed + 1))"

datatype dir_result =
  DirFailure (dir_error: string)
| DirSuccess (total_files: nat) (successful: nat) (failed: nat) (results: "doc_result list")

fun dir_success :: "dir_result \<Rightarrow> bool" where
  "dir_success (DirFailure _) = False"
| "dir_success (DirSuccess _ _ _ _) = True"

definition process_directory :: "world \<Rightarrow> state \<Rightarrow> string \<Rightarrow> (exn + dir_result) \<times> state" where
  "process_directory w s directory_path =
     try_except
       (case path_exists w directory_path of
          Inl e \<Rightarrow> (Inl e, s)
        | Inr found \<Rightarrow>
            if \<not> found
            then (Inr (DirFailure (''Directory not found: '' @ directory_path)), s)
            else (case find_files w directory_path (set_order w) [] of
                    Inl e \<Rightarrow> (Inl e, s)
                  | Inr files \<Rightarrow>
                      if files = []
                      then (Inr (DirFailure ''No supported documents found''), s)
                      else (case process_files w s files [] 0 0 of
                              (Inl e, s') \<Rightarrow> (Inl e, s')
                            | (Inr counted, s') \<Rightarrow>
                                (let (results, successful, failed) = counted
                                 in (Inr (DirSuccess (length files) successful failed
                                            results), s')))))
       (\<lambda>e s'. (Inr (DirFailure (str e)), s'))"

section \<open>The stock data tool\<close>

text \<open>
  \<open>stock_analysis.py\<close> has no embedding here, because the file as it is stored is not
  a Python program. In \<open>GetStockDataTool._run\<close> the \<open>try\<close> of \<open>try_fetch_stock\<close> (line
  50) holds the one statement of line 51; line 54 is back at the level of the \<open>try\<close>
  where only \<open>except\<close> or \<open>finally\<close> may follow, and the \<open>except\<close> of line 98 stands
  one level further out. The statements that call \<open>try_fetch_stock\<close>, retry with the
  suffix \<open>.NS\<close> and return (lines 101 to 145) are written at the level of the class
  body, outside \<open>_run\<close>, where \<open>symbol\<close> is not bound and \<open>return\<close> is not allowed. The
  compiler rejects the file, so no call of \<open>_run\<close> takes place and there is no behaviour
  of it to state theorems about; giving the lines another indentation would be to
  verify a different program.
\<close>

section \<open>Notions of the specification\<close>

text \<open>
  The specification's reading of one keyword set: some member of the set is a substring
  of the lower-cased content or of the lower-cased filename.
\<close>

definition matches :: "string list \<Rightarrow> string \<Rightarrow> string \<Rightarrow> bool" where
  "matches keywords content filename =
     (\<exists>k \<in> set keywords. sublist k (lower content) \<or> sublist k (lower filename))"

text \<open>
  What a call returns, apart from the state: the text \<open>extract_text\<close> gives for a
  path, and the dictionary \<open>process_document\<close> gives for it. Both are read off the
  code, run from the state in which nothing has been logged or printed.
\<close>

definition initial :: state where
  "initial = \<lparr>logged = [], printed = []\<rparr>"

definition extracted_text :: "world \<Rightarrow> string \<Rightarrow> string" where
  "extracted_text w file_path =
     (case fst (extract_text w initial file_path) of Inr content \<Rightarrow> content | Inl e \<Rightarrow> [])"

definition document_result :: "world \<Rightarrow> string \<Rightarrow> doc_result" where
  "document_result w file_path =
     (case fst (process_document w initial file_path) of
        Inr result \<Rightarrow> result
      | Inl e \<Rightarrow> Failure (str e))"

text \<open>
  The literal parts of the patterns the loop of \<open>process_directory\<close> globs with, in
  its order: each extension as written, then in upper case.
\<close>

definition patterns :: "string list \<Rightarrow> string list" where
  "patterns exts = concat (map (\<lambda>ext. [ext, upper ext]) exts)"

section \<open>A directory of five documents\<close>

text \<open>
  A world to run the program in: the directory \<open>docs\<close> holds three documents with
  text (\<open>a.txt\<close>, \<open>b.TXT\<close>, \<open>c.pdf\<close>), an empty text file \<open>d.txt\<close>, a PDF that the
  reader rejects \<open>e.pdf\<close>, a note \<open>notes.md\<close> and a PDF with text whose extension
  mixes cases, \<open>f.Pdf\<close>; the directory \<open>empty\<close> holds \<open>notes.md\<close> alone; \<open>locked\<close> cannot be
  examined. Names are compared with case.
\<close>

definition docs_world :: world where
  "docs_world =
     \<lparr>path_exists = (\<lambda>p. if p = ''locked'' then Inl (Exception ''Permission denied'')
                        else Inr (p \<in> set [''docs'', ''docs/a.txt'', ''docs/b.TXT'',
                                    ''docs/c.pdf'', ''docs/d.txt'', ''docs/e.pdf'',
                                    ''docs/notes.md'', ''docs/f.Pdf'', ''empty'',
                                    ''empty/notes.md''])),
      stat_size = (\<lambda>p. if p = ''docs/b.TXT'' then Inr 2048 else Inr 17),
      read_text = (\<lambda>p. if p = ''docs/a.txt'' then Inr ''Invoice total due''
                      else if p = ''docs/b.TXT'' then Inr ''Terms of the agreement. Signed.''
                      else if p = ''docs/d.txt'' then Inr []
                      else Inl (Exception ''No such file or directory'')),
      pdf_pages = (\<lambda>p. if p = ''docs/c.pdf'' then Inr [''Employee handbook'', ''Benefits'']
                      else if p = ''docs/f.Pdf'' then Inr [''User manual'']
                      else Inl (Exception ''EOF marker not found'')),
      docx_paragraphs = (\<lambda>p. Inl (Exception ''Package not found'')),
      ocr_text = (\<lambda>p. Inl (Exception ''cannot identify image file'')),
      scandir = (\<lambda>d. if d = ''docs''
                     then Inr [''a.txt'', ''b.TXT'', ''c.pdf'', ''d.txt'', ''e.pdf'', ''notes.md'',
                               ''f.Pdf'']
                    else if d = ''empty'' then Inr [''notes.md'']
                    else Inl (Exception ''Not a directory'')),
      case_sensitive = True,
      set_order = [''.pdf'', ''.doc'', ''.docx'', ''.txt'', ''.jpg'', ''.jpeg'', ''.png'']\<rparr>"

section \<open>Substring search\<close>

lemma startswith_prefix: "startswith s k = prefix k s"
  by (induction s k rule: startswith.induct) auto

lemma str_in_sublist: "str_in k s = sublist k s"
  by (induction s) (simp_all add: startswith_prefix sublist_Cons_right)

lemma any_keyword_matches:
  "any_keyword kws (lower content) (lower filename) = matches kws content filename"
  by (simp add: any_keyword_def matches_def list_ex_iff str_in_sublist)

lemma sublist_lower: "sublist k s \<Longrightarrow> sublist (lower k) (lower s)"
  unfolding sublist_def lower_def by (metis map_append)

subsection \<open>The keyword tables\<close>

lemma keywords_lower:
  "k \<in> set (financial_keywords @ legal_keywords @ hr_keywords @ tech_keywords) \<Longrightarrow> lower k = k"
  by (auto simp: financial_keywords_def legal_keywords_def hr_keywords_def tech_keywords_def
      lower_def lower_char_def)

lemma classify_document_cases:
  "classify_document s content filename =
     (if matches financial_keywords content filename then (''financial'', s)
      else if matches legal_keywords content filename then (''legal'', s)
      else if matches hr_keywords content filename then (''hr'', s)
      else if matches tech_keywords content filename then (''technical'', s)
      else (''general'', s))"
  by (simp add: classify_document_def any_keyword_matches)

section \<open>Classification\<close>

text \<open>
  C1. \<open>classify_document\<close> tests the four keyword sets in the order financial, legal,
  hr, technical and returns the category of the first set with a member that is a
  substring of the lower-cased content or filename, \<open>general\<close> when there is none. In
  particular a content that contains a financial keyword and a legal keyword (as it
  stands or once lower-cased) is classified \<open>financial\<close>, and so is the content
  "Please review the attached invoice and total amount due" with filename "doc1.txt".
\<close>

theorem classify_document_priority:
  "fst (classify_document s content filename) =
     (if matches financial_keywords content filename then ''financial''
      else if matches legal_keywords content filename then ''legal''
      else if matches hr_keywords content filename then ''hr''
      else if matches tech_keywords content filename then ''technical''
      else ''general'')
   \<and> ((\<exists>k \<in> set financial_keywords. sublist k content \<or> sublist k (lower content))
        \<and> (\<exists>k \<in> set legal_keywords. sublist k content \<or> sublist k (lower content))
      \<longrightarrow> fst (classify_document s content filename) = ''financial'')
   \<and> fst (classify_document s ''Please review the attached invoice and total amount due''
            ''doc1.txt'') = ''financial''"
proof (intro conjI impI)
  show "fst (classify_document s content filename) =
     (if matches financial_keywords content filename then ''financial''
      else if matches legal_keywords content filename then ''legal''
      else if matches hr_keywords content filename then ''hr''
      else if matches tech_keywords content filename then ''technical''
      else ''general'')"
    by (simp add: classify_document_cases)
next
  assume "(\<exists>k \<in> set financial_keywords. sublist k content \<or> sublist k (lower content))
        \<and> (\<exists>k \<in> set legal_keywords. sublist k content \<or> sublist k (lower content))"
  then obtain k where k: "k \<in> set financial_keywords"
    and "sublist k content \<or> sublist k (lower content)"
    by blast
  then have "sublist k (lower content)"
    using sublist_lower [of k content] keywords_lower [of k] by auto
  with k have "matches financial_keywords content filename"
    unfolding matches_def by blast
  then show "fst (classify_document s content filename) = ''financial''"
    by (simp add: classify_document_cases)
next
  show "fst (classify_document s ''Please review the attached invoice and total amount due''
            ''doc1.txt'') = ''financial''"
    by (simp add: classify_document_def any_keyword_def financial_keywords_def lower_def
        lower_char_def)
qed

theorem classify_document_priority_witness:
  "(\<exists>k \<in> set financial_keywords. sublist k ''Payment terms of the CONTRACT''
        \<or> sublist k (lower ''Payment terms of the CONTRACT''))
   \<and> (\<exists>k \<in> set legal_keywords. sublist k ''Payment terms of the CONTRACT''
        \<or> sublist k (lower ''Payment terms of the CONTRACT''))
   \<and> fst (classify_document \<lparr>logged = [], printed = []\<rparr> ''Payment terms of the CONTRACT''
        ''scan.png'') = ''financial''"
proof -
  have fin: "\<exists>k \<in> set financial_keywords. sublist k ''Payment terms of the CONTRACT''
        \<or> sublist k (lower ''Payment terms of the CONTRACT'')"
    by code_simp
  have leg: "\<exists>k \<in> set legal_keywords. sublist k ''Payment terms of the CONTRACT''
        \<or> sublist k (lower ''Payment terms of the CONTRACT'')"
    by code_simp
  from fin leg
    classify_document_priority [of "\<lparr>logged = [], printed = []\<rparr>"
      "''Payment terms of the CONTRACT''" "''scan.png''"]
  show ?thesis by blast
qed

text \<open>
  C6. The category \<open>classify_document\<close> returns is one of financial, legal, hr,
  technical and general, and it is \<open>general\<close> whenever no keyword of the four sets
  occurs in the lower-cased content or in the lower-cased filename.
\<close>

theorem classify_document_closed:
  "fst (classify_document s content filename)
     \<in> {''financial'', ''legal'', ''hr'', ''technical'', ''general''}
   \<and> ((\<forall>k \<in> set (financial_keywords @ legal_keywords @ hr_keywords @ tech_keywords).
          \<not> sublist k (lower content) \<and> \<not> sublist k (lower filename))
      \<longrightarrow> fst (classify_document s content filename) = ''general'')"
  by (auto simp: classify_document_cases matches_def)

theorem classify_document_closed_witness:
  "list_all (\<lambda>k. \<not> sublist k (lower ''Meeting notes from Tuesday'')
              \<and> \<not> sublist k (lower ''Notes.TXT''))
     (financial_keywords @ legal_keywords @ hr_keywords @ tech_keywords)
   \<and> fst (classify_document \<lparr>logged = [], printed = []\<rparr> ''Meeting notes from Tuesday''
        ''Notes.TXT'') = ''general''"
proof -
  have none: "\<forall>k \<in> set (financial_keywords @ legal_keywords @ hr_keywords @ tech_keywords).
      \<not> sublist k (lower ''Meeting notes from Tuesday'') \<and> \<not> sublist k (lower ''Notes.TXT'')"
    by code_simp
  then have listed: "list_all (\<lambda>k. \<not> sublist k (lower ''Meeting notes from Tuesday'')
              \<and> \<not> sublist k (lower ''Notes.TXT''))
     (financial_keywords @ legal_keywords @ hr_keywords @ tech_keywords)"
    by (simp only: list_all_iff)
  from none
    classify_document_closed [of "\<lparr>logged = [], printed = []\<rparr>"
      "''Meeting notes from Tuesday''" "''Notes.TXT''"]
  have "fst (classify_document \<lparr>logged = [], printed = []\<rparr> ''Meeting notes from Tuesday''
        ''Notes.TXT'') = ''general''"
    by blast
  with listed show ?thesis ..
qed

text \<open>
  C8. \<open>classify_document\<close> is deterministic and free of side effects: called with
  the same content and filename in any two program states it returns the same
  category, and it leaves the state it was called in as it was.
\<close>

theorem classify_document_pure:
  "fst (classify_document s content filename) = fst (classify_document s' content filename)
   \<and> snd (classify_document s content filename) = s"
  by (simp add: classify_document_def Let_def)

section \<open>Extraction and the processing of one document\<close>

lemma try_except_Inl: "try_except (Inl e, s) handler = handler e s"
  by (simp add: try_except_def)

lemma try_except_Inr: "try_except (Inr v, s) handler = (Inr v, s)"
  by (simp add: try_except_def)

lemma extract_pdf_text_returns: "\<exists>content. \<forall>s. \<exists>s'. extract_pdf_text w s file_path = (Inr content, s')"
  by (cases "pdf_pages w file_path") (simp_all add: extract_pdf_text_def try_except_def)

lemma extract_word_text_returns: "\<exists>content. \<forall>s. \<exists>s'. extract_word_text w s file_path = (Inr content, s')"
  by (cases "docx_paragraphs w file_path") (simp_all add: extract_word_text_def try_except_def)

lemma extract_image_text_returns: "\<exists>content. \<forall>s. \<exists>s'. extract_image_text w s file_path = (Inr content, s')"
  by (cases "ocr_text w file_path") (simp_all add: extract_image_text_def try_except_def)

lemma try_except_returns:
  assumes "\<exists>v. \<forall>s. \<exists>s'. body s = (Inr v, s')"
  shows "\<exists>v. \<forall>s. \<exists>s'. try_except (body s) handler = (Inr v, s')"
proof -
  from assms obtain v where "\<forall>s. \<exists>s'. body s = (Inr v, s')" ..
  then have "\<forall>s. \<exists>s'. try_except (body s) handler = (Inr v, s')"
    by (metis try_except_Inr)
  then show ?thesis ..
qed

lemma extract_text_returns: "\<exists>content. \<forall>s. \<exists>s'. extract_text w s file_path = (Inr content, s')"
proof -
  let ?ext = "lower (path_suffix file_path)"
  consider (pdf) "?ext = ''.pdf''"
    | (word) "?ext \<noteq> ''.pdf''" "?ext \<in> set [''.doc'', ''.docx'']"
    | (image) "?ext \<noteq> ''.pdf''" "?ext \<notin> set [''.doc'', ''.docx'']"
        "?ext \<in> set [''.jpg'', ''.jpeg'', ''.png'']"
    | (plain) "?ext \<noteq> ''.pdf''" "?ext \<notin> set [''.doc'', ''.docx'']"
        "?ext \<notin> set [''.jpg'', ''.jpeg'', ''.png'']" "?ext = ''.txt''"
    | (other) "?ext \<noteq> ''.pdf''" "?ext \<notin> set [''.doc'', ''.docx'']"
        "?ext \<notin> set [''.jpg'', ''.jpeg'', ''.png'']" "?ext \<noteq> ''.txt''"
    by blast
  then show ?thesis
  proof cases
    case pdf
    then have "extract_text w s file_path = try_except (extract_pdf_text w s file_path)
      (\<lambda>e s'. (Inr [],
         log_error (''Text extraction error for '' @ path_str file_path @ '': '' @ str e) s'))" for s
      by (simp add: extract_text_def)
    with try_except_returns [OF extract_pdf_text_returns] show ?thesis by simp
  next
    case word
    then have "extract_text w s file_path = try_except (extract_word_text w s file_path)
      (\<lambda>e s'. (Inr [],
         log_error (''Text extraction error for '' @ path_str file_path @ '': '' @ str e) s'))" for s
      by (simp add: extract_text_def)
    with try_except_returns [OF extract_word_text_returns] show ?thesis by simp
  next
    case image
    then have "extract_text w s file_path = try_except (extract_image_text w s file_path)
      (\<lambda>e s'. (Inr [],
         log_error (''Text extraction error for '' @ path_str file_path @ '': '' @ str e) s'))" for s
      by (simp add: extract_text_def)
    with try_except_returns [OF extract_image_text_returns] show ?thesis by simp
  next
    case plain
    then show ?thesis
      by (cases "read_text w file_path") (simp_all add: extract_text_def try_except_def)
  next
    case other
    then show ?thesis
      by (simp add: extract_text_def try_except_def)
  qed
qed

lemma extract_text_extracted:
  "\<exists>s'. extract_text w s file_path = (Inr (extracted_text w file_path), s')"
proof -
  obtain content where t: "\<forall>s. \<exists>s'. extract_text w s file_path = (Inr content, s')"
    using extract_text_returns by blast
  then obtain s0 where "extract_text w initial file_path = (Inr content, s0)" by blast
  then have "extracted_text w file_path = content"
    by (simp add: extracted_text_def)
  with t show ?thesis by blast
qed

lemma extract_text_unsupported:
  assumes "lower (path_suffix file_path) \<notin> supported_extensions"
  shows "extract_text w s file_path = (Inr [], s)"
  using assms by (simp add: extract_text_def supported_extensions_def try_except_def)


lemma classify_document_state:
  "classify_document s content filename = (fst (classify_document initial content filename), s)"
  by (simp add: classify_document_def Let_def)

lemma generate_summary_state:
  "generate_summary s content cat = (fst (generate_summary initial content cat), s)"
  by (simp add: generate_summary_def Let_def)

lemma process_document_eq:
  "fst (process_document w s file_path) =
     Inr (case path_exists w file_path of
            Inl e \<Rightarrow> Failure (str e)
          | Inr found \<Rightarrow>
              if \<not> found then Failure (''File not found: '' @ file_path)
              else if extracted_text w file_path = []
                then Failure ''Could not extract text from document''
              else (case stat_size w file_path of
                      Inl e \<Rightarrow> Failure (str e)
                    | Inr st_size \<Rightarrow>
                        Success (path_name file_path) st_size
                          (length (split (extracted_text w file_path)))
                          (fst (classify_document initial (extracted_text w file_path)
                                  (path_name file_path)))
                          (fst (generate_summary initial (extracted_text w file_path)
                                  (fst (classify_document initial (extracted_text w file_path)
                                          (path_name file_path)))))
                          (if length (extracted_text w file_path) > 200
                           then take 200 (extracted_text w file_path) @ ''...''
                           else extracted_text w file_path)))"
proof -
  define content where "content = extracted_text w file_path"
  define cat where "cat = fst (classify_document initial content (path_name file_path))"
  define summ where "summ = fst (generate_summary initial content cat)"
  obtain s2 where ex: "extract_text w (print (''Processing: '' @ file_path) s) file_path
      = (Inr content, s2)"
    unfolding content_def using extract_text_extracted by blast
  have cl: "classify_document s2 content (path_name file_path) = (cat, s2)"
    unfolding cat_def by (rule classify_document_state)
  have su: "generate_summary s2 content cat = (summ, s2)"
    unfolding summ_def by (rule generate_summary_state)
  have "fst (process_document w s file_path) =
     Inr (case path_exists w file_path of
            Inl e \<Rightarrow> Failure (str e)
          | Inr found \<Rightarrow>
              if \<not> found then Failure (''File not found: '' @ file_path)
              else if content = [] then Failure ''Could not extract text from document''
              else (case stat_size w file_path of
                      Inl e \<Rightarrow> Failure (str e)
                    | Inr st_size \<Rightarrow>
                        Success (path_name file_path) st_size (length (split content)) cat summ
                          (if length content > 200 then take 200 content @ ''...''
                           else content)))"
    using ex cl su
    by (simp add: process_document_def Let_def try_except_def split: sum.splits)
  then show ?thesis
    by (simp only: content_def cat_def summ_def)
qed

lemma process_document_result:
  "\<exists>s'. process_document w s file_path = (Inr (document_result w file_path), s')"
proof -
  have "fst (process_document w s file_path) = fst (process_document w initial file_path)"
    by (simp only: process_document_eq)
  moreover obtain r where "fst (process_document w initial file_path) = Inr r"
    using process_document_eq by blast
  ultimately have "fst (process_document w s file_path) = Inr (document_result w file_path)"
    by (simp add: document_result_def)
  then show ?thesis
    by (cases "process_document w s file_path") simp
qed

lemma extracted_text_unsupported:
  "lower (path_suffix file_path) \<notin> supported_extensions \<Longrightarrow> extracted_text w file_path = []"
  by (simp add: extracted_text_def extract_text_unsupported)

text \<open>
  C3. For a path whose lower-cased suffix is none of \<open>.pdf\<close>, \<open>.doc\<close>, \<open>.docx\<close>,
  \<open>.txt\<close>, \<open>.jpg\<close>, \<open>.jpeg\<close>, \<open>.png\<close>, \<open>extract_text\<close> returns the empty
  string, and \<open>process_document\<close> on such a file that exists returns, without
  raising, the failure "Could not extract text from document".
\<close>

theorem unsupported_extension:
  assumes "lower (path_suffix file_path) \<notin> supported_extensions"
  shows "fst (extract_text w s file_path) = Inr []
    \<and> (path_exists w file_path = Inr True \<longrightarrow>
         fst (process_document w s file_path)
           = Inr (Failure ''Could not extract text from document''))"
  using assms
  by (simp add: extract_text_unsupported process_document_eq extracted_text_unsupported)

theorem unsupported_extension_witness:
  "lower (path_suffix ''docs/notes.md'') \<notin> supported_extensions
   \<and> path_exists docs_world ''docs/notes.md'' = Inr True
   \<and> fst (extract_text docs_world initial ''docs/notes.md'') = Inr []
   \<and> fst (process_document docs_world initial ''docs/notes.md'')
       = Inr (Failure ''Could not extract text from document'')"
proof -
  have unsupported: "lower (path_suffix ''docs/notes.md'') \<notin> supported_extensions"
    unfolding supported_extensions_def by code_simp
  have found: "path_exists docs_world ''docs/notes.md'' = Inr True"
    by (simp add: docs_world_def)
  from unsupported_extension [OF unsupported, of docs_world initial] unsupported found
  show ?thesis by simp
qed

text \<open>
  C7. For a path that names no existing file \<open>process_document\<close> returns the failure
  "File not found: " followed by the path. It never raises: it always returns a
  dictionary, and an exception raised while it examines the path or reads the size of
  the file comes back as a failure whose error is the message of the exception.
\<close>

theorem process_document_no_exception:
  "(path_exists w file_path = Inr False \<longrightarrow>
      fst (process_document w s file_path)
        = Inr (Failure (''File not found: '' @ file_path)))
   \<and> (\<exists>result. fst (process_document w s file_path) = Inr result)
   \<and> (\<forall>e. path_exists w file_path = Inl e \<longrightarrow>
        fst (process_document w s file_path) = Inr (Failure (str e)))
   \<and> (\<forall>e. path_exists w file_path = Inr True \<and> extracted_text w file_path \<noteq> []
          \<and> stat_size w file_path = Inl e \<longrightarrow>
        fst (process_document w s file_path) = Inr (Failure (str e)))"
  by (simp add: process_document_eq)

theorem process_document_no_exception_witness:
  "path_exists docs_world ''docs/missing.txt'' = Inr False
   \<and> fst (process_document docs_world initial ''docs/missing.txt'')
       = Inr (Failure ''File not found: docs/missing.txt'')
   \<and> path_exists docs_world ''locked'' = Inl (Exception ''Permission denied'')
   \<and> fst (process_document docs_world initial ''locked'')
       = Inr (Failure ''Permission denied'')"
proof -
  have missing: "path_exists docs_world ''docs/missing.txt'' = Inr False"
    by (simp add: docs_world_def)
  have locked: "path_exists docs_world ''locked'' = Inl (Exception ''Permission denied'')"
    by (simp add: docs_world_def)
  from process_document_no_exception [of docs_world "''docs/missing.txt''" initial]
    process_document_no_exception [of docs_world "''locked''" initial] missing locked
  show ?thesis by simp
qed

text \<open>
  C9. In a successful result of \<open>process_document\<close> the field \<open>content_preview\<close> is
  the extracted content when it has at most 200 characters, and its first 200
  characters followed by three dots otherwise: never more than 203 characters.
\<close>

theorem content_preview_truncated:
  assumes "fst (process_document w s file_path) = Inr result" and "success result"
  shows "content_preview result =
           (if length (extracted_text w file_path) \<le> 200 then extracted_text w file_path
            else take 200 (extracted_text w file_path) @ ''...'')
         \<and> fst (extract_text w s file_path) = Inr (extracted_text w file_path)
         \<and> length (content_preview result) \<le> 203"
proof -
  have ex: "fst (extract_text w s file_path) = Inr (extracted_text w file_path)"
    using extract_text_extracted [of w s file_path] by auto
  from assms have "content_preview result =
           (if length (extracted_text w file_path) \<le> 200 then extracted_text w file_path
            else take 200 (extracted_text w file_path) @ ''...'')"
    by (auto simp: process_document_eq split: sum.splits if_splits)
  with ex show ?thesis by simp
qed

theorem content_preview_truncated_witness:
  "fst (process_document docs_world initial ''docs/a.txt'')
     = Inr (Success ''a.txt'' 17 3 ''financial''
         ''This is a financial document with 3 words. Content preview: Invoice total due''
         ''Invoice total due'')
   \<and> extracted_text docs_world ''docs/a.txt'' = ''Invoice total due''
   \<and> length ''Invoice total due'' \<le> (203::nat)"
proof -
  have run: "fst (process_document docs_world initial ''docs/a.txt'')
     = Inr (Success ''a.txt'' 17 3 ''financial''
         ''This is a financial document with 3 words. Content preview: Invoice total due''
         ''Invoice total due'')"
    by code_simp
  have extracted: "extracted_text docs_world ''docs/a.txt'' = ''Invoice total due''"
    by code_simp
  from content_preview_truncated [OF run] run extracted show ?thesis by simp
qed

section \<open>The batch over a directory\<close>

lemma process_files_eq:
  "\<exists>s'. process_files w s files acc good bad =
     (Inr (acc @ map (document_result w) files,
           good + length (filter success (map (document_result w) files)),
           bad + length (filter (\<lambda>r. \<not> success r) (map (document_result w) files))), s')"
proof (induction files arbitrary: s acc good bad)
  case Nil
  show ?case by simp
next
  case (Cons file_path files)
  obtain s1 where doc: "process_document w s file_path = (Inr (document_result w file_path), s1)"
    using process_document_result by blast
  show ?case
  proof (cases "success (document_result w file_path)")
    case True
    from Cons.IH [of s1 "acc @ [document_result w file_path]" "good + 1" bad]
    show ?thesis using doc True by auto
  next
    case False
    from Cons.IH [of s1 "acc @ [document_result w file_path]" good "bad + 1"]
    show ?thesis using doc False by auto
  qed
qed

lemma process_directory_eq:
  assumes "path_exists w directory_path = Inr True"
    and "find_files w directory_path (set_order w) [] = Inr files"
    and "files \<noteq> []"
  shows "fst (process_directory w s directory_path) =
    Inr (DirSuccess (length files)
           (length (filter success (map (document_result w) files)))
           (length (filter (\<lambda>r. \<not> success r) (map (document_result w) files)))
           (map (document_result w) files))"
proof -
  obtain s' where "process_files w s files [] 0 0 =
     (Inr (map (document_result w) files,
           length (filter success (map (document_result w) files)),
           length (filter (\<lambda>r. \<not> success r) (map (document_result w) files))), s')"
    using process_files_eq [of w s files "[]" 0 0] by auto
  with assms show ?thesis
    by (simp add: process_directory_def try_except_def)
qed

lemma find_files_empty:
  assumes "\<forall>ext \<in> set exts. glob w dir_path ext = Inr [] \<and> glob w dir_path (upper ext) = Inr []"
  shows "find_files w dir_path exts files = Inr files"
  using assms by (induction exts arbitrary: files) simp_all

text \<open>
  C4. When the directory exists and its enumeration gives a list of files that is not
  empty, \<open>process_directory\<close> returns success with \<open>total_files\<close> the number of
  files, one entry of \<open>results\<close> for each file (the result of \<open>process_document\<close> on
  it, in the order of the files), \<open>successful\<close> the number of results with \<open>success\<close>
  true and \<open>failed\<close> the number with \<open>success\<close> false, the two adding up to
  \<open>total_files\<close>. A file that fails does not stop the batch: with five files of which
  three are processed with success the counts are 5, 3 and 2.
\<close>

theorem process_directory_counts:
  assumes "path_exists w directory_path = Inr True"
    and "find_files w directory_path (set_order w) [] = Inr files"
    and "files \<noteq> []"
  shows "\<exists>res. fst (process_directory w s directory_path) = Inr res
    \<and> dir_success res
    \<and> total_files res = length files
    \<and> length (results res) = length files
    \<and> (\<forall>i < length files. \<forall>s'.
          fst (process_document w s' (files ! i)) = Inr (results res ! i))
    \<and> successful res = length (filter success (results res))
    \<and> failed res = length (filter (\<lambda>r. \<not> success r) (results res))
    \<and> successful res + failed res = total_files res
    \<and> (length files = 5 \<and> length (filter (\<lambda>f. success (document_result w f)) files) = 3
         \<longrightarrow> total_files res = 5 \<and> successful res = 3 \<and> failed res = 2)"
proof -
  let ?rs = "map (document_result w) files"
  let ?res = "DirSuccess (length files) (length (filter success ?rs))
    (length (filter (\<lambda>r. \<not> success r) ?rs)) ?rs"
  have run: "fst (process_directory w s directory_path) = Inr ?res"
    using assms by (rule process_directory_eq)
  have each: "\<forall>i < length files. \<forall>s'.
      fst (process_document w s' (files ! i)) = Inr (?rs ! i)"
  proof (intro allI impI)
    fix i s'
    assume "i < length files"
    moreover obtain s'' where
      "process_document w s' (files ! i) = (Inr (document_result w (files ! i)), s'')"
      using process_document_result by blast
    ultimately show "fst (process_document w s' (files ! i)) = Inr (?rs ! i)"
      by simp
  qed
  have total: "length (filter success ?rs) + length (filter (\<lambda>r. \<not> success r) ?rs)
      = length files"
    using sum_length_filter_compl [of success ?rs] by simp
  have five: "length (filter success ?rs) = 3 \<and> length (filter (\<lambda>r. \<not> success r) ?rs) = 2"
    if "length files = 5" "length (filter (\<lambda>f. success (document_result w f)) files) = 3"
  proof -
    have "length (filter success ?rs) = 3"
      using that(2) by (simp add: filter_map comp_def)
    with total that(1) show ?thesis by simp
  qed
  have "dir_success ?res \<and> total_files ?res = length files
    \<and> length (results ?res) = length files
    \<and> (\<forall>i < length files. \<forall>s'.
          fst (process_document w s' (files ! i)) = Inr (results ?res ! i))
    \<and> successful ?res = length (filter success (results ?res))
    \<and> failed ?res = length (filter (\<lambda>r. \<not> success r) (results ?res))
    \<and> successful ?res + failed ?res = total_files ?res
    \<and> (length files = 5 \<and> length (filter (\<lambda>f. success (document_result w f)) files) = 3
         \<longrightarrow> total_files ?res = 5 \<and> successful ?res = 3 \<and> failed ?res = 2)"
    using each total five by simp
  with run show ?thesis by blast
qed

theorem process_directory_counts_witness:
  "path_exists docs_world ''docs'' = Inr True
   \<and> find_files docs_world ''docs'' (set_order docs_world) []
       = Inr [''docs/c.pdf'', ''docs/e.pdf'', ''docs/a.txt'', ''docs/d.txt'', ''docs/b.TXT'']
   \<and> (\<exists>res. fst (process_directory docs_world initial ''docs'') = Inr res
         \<and> total_files res = 5 \<and> successful res = 3 \<and> failed res = 2
         \<and> length (results res) = 5)"
proof -
  have found: "path_exists docs_world ''docs'' = Inr True"
    by (simp add: docs_world_def)
  have files: "find_files docs_world ''docs'' (set_order docs_world) []
       = Inr [''docs/c.pdf'', ''docs/e.pdf'', ''docs/a.txt'', ''docs/d.txt'', ''docs/b.TXT'']"
    by code_simp
  have valid: "length (filter (\<lambda>f. success (document_result docs_world f))
      [''docs/c.pdf'', ''docs/e.pdf'', ''docs/a.txt'', ''docs/d.txt'', ''docs/b.TXT'']) = 3"
    by code_simp
  from process_directory_counts [OF found files, of initial] valid
  have "\<exists>res. fst (process_directory docs_world initial ''docs'') = Inr res
         \<and> total_files res = 5 \<and> successful res = 3 \<and> failed res = 2
         \<and> length (results res) = 5"
    by auto
  with found files show ?thesis by blast
qed

text \<open>
  C10. For a directory that exists and in which none of the globs of the supported
  extensions matches an entry, \<open>process_directory\<close> returns the failure
  "No supported documents found", not a success with counts of zero.
\<close>

theorem no_supported_documents:
  assumes "path_exists w directory_path = Inr True"
    and "set (set_order w) = supported_extensions"
    and "\<forall>ext \<in> supported_extensions.
           glob w directory_path ext = Inr [] \<and> glob w directory_path (upper ext) = Inr []"
  shows "fst (process_directory w s directory_path)
           = Inr (DirFailure ''No supported documents found'')"
proof -
  have "find_files w directory_path (set_order w) [] = Inr []"
    using assms(2,3) by (intro find_files_empty) simp
  with assms(1) show ?thesis
    by (simp add: process_directory_def try_except_def)
qed

theorem no_supported_documents_witness:
  "path_exists docs_world ''empty'' = Inr True
   \<and> set (set_order docs_world) = supported_extensions
   \<and> list_all (\<lambda>ext. glob docs_world ''empty'' ext = Inr []
                  \<and> glob docs_world ''empty'' (upper ext) = Inr []) (set_order docs_world)
   \<and> fst (process_directory docs_world initial ''empty'')
       = Inr (DirFailure ''No supported documents found'')"
proof -
  have found: "path_exists docs_world ''empty'' = Inr True"
    by (simp add: docs_world_def)
  have order: "set (set_order docs_world) = supported_extensions"
    by (simp add: docs_world_def supported_extensions_def)
  have none: "\<forall>ext \<in> supported_extensions.
         glob docs_world ''empty'' ext = Inr [] \<and> glob docs_world ''empty'' (upper ext) = Inr []"
    unfolding supported_extensions_def by code_simp
  then have listed: "list_all (\<lambda>ext. glob docs_world ''empty'' ext = Inr []
                  \<and> glob docs_world ''empty'' (upper ext) = Inr []) (set_order docs_world)"
    by (simp only: list_all_iff order)
  from no_supported_documents [OF found order none, of initial]
  have "fst (process_directory docs_world initial ''empty'')
       = Inr (DirFailure ''No supported documents found'')" .
  with found order listed show ?thesis
    by (intro conjI)
qed

section \<open>Discovery of the files of a batch\<close>

lemma endswith_suffix: "endswith s suf = suffix suf s"
proof
  assume "endswith s suf"
  then have "s = take (length s - length suf) s @ suf"
    by (metis append_take_drop_id endswith_def)
  then show "suffix suf s"
    by (rule suffixI)
next
  assume "suffix suf s"
  then obtain zs where "s = zs @ suf" by (rule suffixE)
  then show "endswith s suf"
    by (simp add: endswith_def)
qed

lemma patterns_set: "set (patterns exts) = set exts \<union> upper ` set exts"
  by (auto simp: patterns_def)

lemma patterns_mset:
  "mset (patterns exts) = sum_mset (image_mset (\<lambda>ext. {#ext, upper ext#}) (mset exts))"
  by (induction exts) (simp_all add: patterns_def)

lemma length_at_most_one:
  assumes "distinct xs" and "\<forall>a \<in> set xs. \<forall>b \<in> set xs. a = b"
  shows "length xs \<le> 1"
proof (cases xs)
  case Nil
  then show ?thesis by simp
next
  case outer: (Cons x ys)
  show ?thesis
  proof (cases ys)
    case Nil
    with outer show ?thesis by simp
  next
    case (Cons y zs)
    with outer have xs: "xs = x # y # zs" by simp
    have x: "x \<in> set xs" and y: "y \<in> set xs"
      unfolding xs by simp_all
    from assms(2) x have "\<forall>b \<in> set xs. x = b" by (rule bspec)
    from this y have "x = y" by (rule bspec)
    moreover from assms(1) have "x \<noteq> y"
      unfolding xs by simp
    ultimately show ?thesis by (rule notE [rotated])
  qed
qed

lemma matching_patterns_general:
  assumes "distinct exts" and "distinct fixed" and "set exts = set fixed"
    and "distinct (patterns fixed)"
    and apart: "\<forall>a \<in> set (patterns fixed). \<forall>b \<in> set (patterns fixed). a \<noteq> b \<longrightarrow> \<not> suffix a b"
  shows "length (filter (endswith name) (patterns exts)) =
    (if \<exists>pat \<in> set (patterns fixed). endswith name pat then 1 else 0)"
proof -
  let ?hits = "filter (endswith name) (patterns fixed)"
  from assms(1,2,3) have "mset exts = mset fixed"
    by (rule iffD1 [OF set_eq_iff_mset_eq_distinct])
  then have "mset (patterns exts) = mset (patterns fixed)"
    by (simp only: patterns_mset)
  then have "mset (filter (endswith name) (patterns exts)) = mset ?hits"
    by (simp only: mset_filter)
  then have "size (mset (filter (endswith name) (patterns exts))) = size (mset ?hits)"
    by (rule arg_cong)
  then have same: "length (filter (endswith name) (patterns exts)) = length ?hits"
    by (simp only: size_mset)
  have dist: "distinct ?hits"
    using assms(4) by (rule distinct_filter)
  have one: "\<forall>a \<in> set ?hits. \<forall>b \<in> set ?hits. a = b"
  proof (intro ballI)
    fix a b
    assume "a \<in> set ?hits" and "b \<in> set ?hits"
    then have a: "a \<in> set (patterns fixed)" and b: "b \<in> set (patterns fixed)"
      and sa: "suffix a name" and sb: "suffix b name"
      by (simp_all add: endswith_suffix)
    from apart a have "\<forall>b \<in> set (patterns fixed). a \<noteq> b \<longrightarrow> \<not> suffix a b" by (rule bspec)
    from this b have ab: "a \<noteq> b \<longrightarrow> \<not> suffix a b" by (rule bspec)
    from apart b have "\<forall>a \<in> set (patterns fixed). b \<noteq> a \<longrightarrow> \<not> suffix b a" by (rule bspec)
    from this a have ba: "b \<noteq> a \<longrightarrow> \<not> suffix b a" by (rule bspec)
    from sa sb have "suffix a b \<or> suffix b a"
      by (rule suffix_same_cases)
    then show "a = b"
    proof (rule disjE)
      assume "suffix a b"
      with ab show ?thesis by simp
    next
      assume "suffix b a"
      with ba show ?thesis by simp
    qed
  qed
  from dist one have small: "length ?hits \<le> 1"
    by (rule length_at_most_one)
  show ?thesis
  proof (cases "\<exists>pat \<in> set (patterns fixed). endswith name pat")
    case True
    then have "?hits \<noteq> []"
      by (simp add: filter_empty_conv)
    then have "length ?hits \<noteq> 0" by simp
    with small have "length ?hits = 1" by linarith
    with same True show ?thesis by simp
  next
    case False
    then have "?hits = []"
      by (simp add: filter_empty_conv)
    with same False show ?thesis by simp
  qed
qed


lemma patterns_apart:
  "\<forall>a \<in> set (patterns [''.pdf'', ''.doc'', ''.docx'', ''.txt'', ''.jpg'', ''.jpeg'', ''.png'']).
   \<forall>b \<in> set (patterns [''.pdf'', ''.doc'', ''.docx'', ''.txt'', ''.jpg'', ''.jpeg'', ''.png'']).
     a \<noteq> b \<longrightarrow> \<not> suffix a b"
  by code_simp

lemma patterns_distinct:
  "distinct (patterns [''.pdf'', ''.doc'', ''.docx'', ''.txt'', ''.jpg'', ''.jpeg'', ''.png''])"
  by code_simp

lemma supported_extensions_list:
  "set [''.pdf'', ''.doc'', ''.docx'', ''.txt'', ''.jpg'', ''.jpeg'', ''.png''] = supported_extensions"
  by (simp add: supported_extensions_def)

lemma supported_extensions_distinct:
  "distinct [''.pdf'', ''.doc'', ''.docx'', ''.txt'', ''.jpg'', ''.jpeg'', ''.png'']"
  by simp

lemma matching_patterns:
  assumes "distinct exts" and "set exts = supported_extensions"
  shows "length (filter (endswith name) (patterns exts)) =
    (if \<exists>ext \<in> supported_extensions. endswith name ext \<or> endswith name (upper ext)
     then 1 else 0)"
proof -
  let ?fixed = "[''.pdf'', ''.doc'', ''.docx'', ''.txt'', ''.jpg'', ''.jpeg'', ''.png'']"
  from assms(2) have "set exts = set ?fixed"
    by (simp only: supported_extensions_list)
  with assms(1) supported_extensions_distinct
  have "length (filter (endswith name) (patterns exts)) =
    (if \<exists>pat \<in> set (patterns ?fixed). endswith name pat then 1 else 0)"
    using patterns_distinct patterns_apart by (rule matching_patterns_general)
  moreover have "(\<exists>pat \<in> set (patterns ?fixed). endswith name pat) \<longleftrightarrow>
    (\<exists>ext \<in> supported_extensions. endswith name ext \<or> endswith name (upper ext))"
    unfolding patterns_set supported_extensions_list by blast
  ultimately show ?thesis by (simp only:)
qed

lemma glob_eq:
  assumes "scandir w dir_path = Inr names"
  shows "glob w dir_path ext =
    Inr (map (joinpath dir_path)
           (filter (\<lambda>name. fnmatch_star (case_sensitive w) name ext) names))"
  using assms by (simp add: glob_def)

lemma find_files_eq:
  assumes "scandir w dir_path = Inr names"
  shows "find_files w dir_path exts files =
    Inr (files @ concat (map (\<lambda>pat. map (joinpath dir_path)
           (filter (\<lambda>name. fnmatch_star (case_sensitive w) name pat) names)) (patterns exts)))"
  by (induction exts arbitrary: files) (simp_all add: glob_eq [OF assms] patterns_def)

lemma count_list_concat_map:
  "count_list (concat (map f xs)) y = sum_list (map (\<lambda>x. count_list (f x) y) xs)"
  by (induction xs) simp_all

lemma join_snoc: "join sep (xs @ [a]) = (if xs = [] then a else join sep xs @ sep @ a)"
proof (induction xs)
  case Nil
  show ?case by simp
next
  case (Cons x xs)
  then show ?case by (cases xs) simp_all
qed

lemma joinpath_append: "\<exists>stem. \<forall>name. joinpath dir_path name = stem @ name"
proof -
  let ?root = "fst (splitroot dir_path)"
  let ?tail = "path_tail dir_path"
  let ?stem = "?root @ (if ?tail = [] then [] else join ''/'' ?tail @ ''/'')"
  have "\<forall>name. joinpath dir_path name = ?stem @ name"
    by (simp add: joinpath_def format_path_def join_snoc)
  then show ?thesis ..
qed

lemma count_list_joinpath:
  "count_list (map (joinpath dir_path) names) (joinpath dir_path name) = count_list names name"
proof -
  obtain stem where stem: "\<forall>name. joinpath dir_path name = stem @ name"
    using joinpath_append by blast
  show ?thesis
    by (induction names) (simp_all add: stem)
qed

lemma count_list_filter:
  "count_list (filter P xs) y = (if P y then count_list xs y else 0)"
  by (induction xs) simp_all

lemma count_list_distinct:
  "distinct xs \<Longrightarrow> count_list xs y = (if y \<in> set xs then 1 else 0)"
  by (induction xs) auto

lemma sum_list_indicator:
  "sum_list (map (\<lambda>x. if c \<and> P x then 1 else 0) xs) = (if c then length (filter P xs) else (0::nat))"
  by (induction xs) simp_all

text \<open>
  What the two globs per extension find when names are compared with case: an entry
  of the directory is among the files exactly once when its name ends with one of
  the seven extensions as written or in upper case, and not at all otherwise.
\<close>

theorem find_files_with_case:
  assumes "case_sensitive w" and "scandir w dir_path = Inr names" and "distinct names"
    and "distinct (set_order w)" and "set (set_order w) = supported_extensions"
  shows "\<exists>files. find_files w dir_path (set_order w) [] = Inr files
    \<and> (\<forall>name. count_list files (joinpath dir_path name) =
          (if name \<in> set names
              \<and> (\<exists>ext \<in> supported_extensions. endswith name ext \<or> endswith name (upper ext))
           then 1 else 0))
    \<and> set files \<subseteq> joinpath dir_path ` set names"
proof -
  let ?glob = "\<lambda>pat. map (joinpath dir_path) (filter (\<lambda>name. endswith name pat) names)"
  let ?files = "concat (map ?glob (patterns (set_order w)))"
  have files: "find_files w dir_path (set_order w) [] = Inr ?files"
    using assms(1) by (simp add: find_files_eq [OF assms(2)] fnmatch_star_def)
  have once: "count_list ?files (joinpath dir_path name) =
          (if name \<in> set names
              \<and> (\<exists>ext \<in> supported_extensions. endswith name ext \<or> endswith name (upper ext))
           then 1 else 0)" for name
  proof -
    have each: "count_list (?glob pat) (joinpath dir_path name) =
        (if name \<in> set names \<and> endswith name pat then 1 else 0)" for pat
      using assms(3)
      by (simp add: count_list_joinpath count_list_filter count_list_distinct)
    have "count_list ?files (joinpath dir_path name) =
        sum_list (map (\<lambda>pat. count_list (?glob pat) (joinpath dir_path name))
          (patterns (set_order w)))"
      by (rule count_list_concat_map)
    also have "\<dots> = sum_list (map (\<lambda>pat. if name \<in> set names \<and> endswith name pat
          then 1 else 0) (patterns (set_order w)))"
      by (simp only: each)
    also have "\<dots> = (if name \<in> set names
        then length (filter (endswith name) (patterns (set_order w))) else 0)"
      by (rule sum_list_indicator)
    also have "\<dots> = (if name \<in> set names
              \<and> (\<exists>ext \<in> supported_extensions. endswith name ext \<or> endswith name (upper ext))
           then 1 else 0)"
      by (simp add: matching_patterns [OF assms(4,5)])
    finally show ?thesis .
  qed
  have within: "set ?files \<subseteq> joinpath dir_path ` set names"
    by auto
  from files once within show ?thesis by blast
qed

theorem find_files_with_case_witness:
  "case_sensitive docs_world
   \<and> scandir docs_world ''docs''
       = Inr [''a.txt'', ''b.TXT'', ''c.pdf'', ''d.txt'', ''e.pdf'', ''notes.md'', ''f.Pdf'']
   \<and> distinct [''a.txt'', ''b.TXT'', ''c.pdf'', ''d.txt'', ''e.pdf'', ''notes.md'', ''f.Pdf'']
   \<and> distinct (set_order docs_world)
   \<and> set (set_order docs_world) = supported_extensions
   \<and> (\<exists>files. find_files docs_world ''docs'' (set_order docs_world) [] = Inr files
        \<and> count_list files (joinpath ''docs'' ''b.TXT'') = 1
        \<and> count_list files (joinpath ''docs'' ''f.Pdf'') = 0)"
proof -
  let ?names = "[''a.txt'', ''b.TXT'', ''c.pdf'', ''d.txt'', ''e.pdf'', ''notes.md'', ''f.Pdf'']"
  have with_case: "case_sensitive docs_world"
    by (simp add: docs_world_def)
  have listing: "scandir docs_world ''docs'' = Inr ?names"
    by (simp add: docs_world_def)
  have names: "distinct ?names"
    by simp
  have order: "distinct (set_order docs_world)"
    by (simp add: docs_world_def)
  have all: "set (set_order docs_world) = supported_extensions"
    by (simp add: docs_world_def supported_extensions_def)
  have upper_case: "''b.TXT'' \<in> set ?names
      \<and> (\<exists>ext \<in> supported_extensions. endswith ''b.TXT'' ext \<or> endswith ''b.TXT'' (upper ext))"
    unfolding supported_extensions_def by code_simp
  have mixed_case: "\<not> (''f.Pdf'' \<in> set ?names
      \<and> (\<exists>ext \<in> supported_extensions. endswith ''f.Pdf'' ext \<or> endswith ''f.Pdf'' (upper ext)))"
    unfolding supported_extensions_def by code_simp
  from find_files_with_case [OF with_case listing names order all]
  obtain files where files: "find_files docs_world ''docs'' (set_order docs_world) [] = Inr files"
    and once: "\<forall>name. count_list files (joinpath ''docs'' name) =
          (if name \<in> set ?names
              \<and> (\<exists>ext \<in> supported_extensions. endswith name ext \<or> endswith name (upper ext))
           then 1 else 0)"
    by blast
  from once have "count_list files (joinpath ''docs'' ''b.TXT'') =
          (if ''b.TXT'' \<in> set ?names
              \<and> (\<exists>ext \<in> supported_extensions. endswith ''b.TXT'' ext \<or> endswith ''b.TXT'' (upper ext))
           then 1 else 0)" by (rule spec)
  also from upper_case have "\<dots> = 1" by (rule if_P)
  finally have included: "count_list files (joinpath ''docs'' ''b.TXT'') = 1" .
  from once have "count_list files (joinpath ''docs'' ''f.Pdf'') =
          (if ''f.Pdf'' \<in> set ?names
              \<and> (\<exists>ext \<in> supported_extensions. endswith ''f.Pdf'' ext \<or> endswith ''f.Pdf'' (upper ext))
           then 1 else 0)" by (rule spec)
  also from mixed_case have "\<dots> = 0" by (rule if_not_P)
  finally have skipped: "count_list files (joinpath ''docs'' ''f.Pdf'') = 0" .
  from files included skipped
  have "\<exists>files. find_files docs_world ''docs'' (set_order docs_world) [] = Inr files
        \<and> count_list files (joinpath ''docs'' ''b.TXT'') = 1
        \<and> count_list files (joinpath ''docs'' ''f.Pdf'') = 0"
    by blast
  with with_case listing names order all show ?thesis
    by (intro conjI)
qed

text \<open>
  C5 states that the discovery of the files of a batch ignores the case of the
  extension: every file of the directory whose extension is, case ignored, one of
  \<open>.pdf\<close>, \<open>.doc\<close>, \<open>.docx\<close>, \<open>.txt\<close>, \<open>.jpg\<close>, \<open>.jpeg\<close>, \<open>.png\<close> is in the
  batch, exactly once. The loop globs each extension as written and in upper case, and
  nothing else. In the directory \<open>docs\<close> the entry \<open>f.Pdf\<close>, whose lower-cased suffix is
  \<open>.pdf\<close> and which \<open>process_document\<close> processes with success, is not among the files
  of the batch; and where names are compared without case each matching entry is
  found by both globs and is in the batch twice.
\<close>

theorem batch_discovery_mixed_case:
  "scandir docs_world ''docs''
     = Inr [''a.txt'', ''b.TXT'', ''c.pdf'', ''d.txt'', ''e.pdf'', ''notes.md'', ''f.Pdf'']
   \<and> lower (path_suffix (joinpath ''docs'' ''f.Pdf'')) = ''.pdf''
   \<and> success (document_result docs_world (joinpath ''docs'' ''f.Pdf''))
   \<and> find_files docs_world ''docs'' (set_order docs_world) []
       = Inr [''docs/c.pdf'', ''docs/e.pdf'', ''docs/a.txt'', ''docs/d.txt'', ''docs/b.TXT'']
   \<and> count_list [''docs/c.pdf'', ''docs/e.pdf'', ''docs/a.txt'', ''docs/d.txt'', ''docs/b.TXT'']
        (joinpath ''docs'' ''f.Pdf'') = 0
   \<and> find_files (docs_world\<lparr>case_sensitive := False\<rparr>) ''docs'' (set_order docs_world) []
       = Inr [''docs/c.pdf'', ''docs/e.pdf'', ''docs/f.Pdf'', ''docs/c.pdf'', ''docs/e.pdf'',
              ''docs/f.Pdf'', ''docs/a.txt'', ''docs/b.TXT'', ''docs/d.txt'', ''docs/a.txt'',
              ''docs/b.TXT'', ''docs/d.txt'']
   \<and> count_list [''docs/c.pdf'', ''docs/e.pdf'', ''docs/f.Pdf'', ''docs/c.pdf'', ''docs/e.pdf'',
              ''docs/f.Pdf'', ''docs/a.txt'', ''docs/b.TXT'', ''docs/d.txt'', ''docs/a.txt'',
              ''docs/b.TXT'', ''docs/d.txt''] (joinpath ''docs'' ''a.txt'') = 2"
proof (intro conjI)
  show "scandir docs_world ''docs''
     = Inr [''a.txt'', ''b.TXT'', ''c.pdf'', ''d.txt'', ''e.pdf'', ''notes.md'', ''f.Pdf'']"
    by (simp add: docs_world_def)
  show "lower (path_suffix (joinpath ''docs'' ''f.Pdf'')) = ''.pdf''"
    by code_simp
  show "success (document_result docs_world (joinpath ''docs'' ''f.Pdf''))"
    by code_simp
  show "find_files docs_world ''docs'' (set_order docs_world) []
       = Inr [''docs/c.pdf'', ''docs/e.pdf'', ''docs/a.txt'', ''docs/d.txt'', ''docs/b.TXT'']"
    by code_simp
  show "count_list [''docs/c.pdf'', ''docs/e.pdf'', ''docs/a.txt'', ''docs/d.txt'', ''docs/b.TXT'']
        (joinpath ''docs'' ''f.Pdf'') = 0"
    by code_simp
  show "find_files (docs_world\<lparr>case_sensitive := False\<rparr>) ''docs'' (set_order docs_world) []
       = Inr [''docs/c.pdf'', ''docs/e.pdf'', ''docs/f.Pdf'', ''docs/c.pdf'', ''docs/e.pdf'',
              ''docs/f.Pdf'', ''docs/a.txt'', ''docs/b.TXT'', ''docs/d.txt'', ''docs/a.txt'',
              ''docs/b.TXT'', ''docs/d.txt'']"
    by code_simp
  show "count_list [''docs/c.pdf'', ''docs/e.pdf'', ''docs/f.Pdf'', ''docs/c.pdf'', ''docs/e.pdf'',
              ''docs/f.Pdf'', ''docs/a.txt'', ''docs/b.TXT'', ''docs/d.txt'', ''docs/a.txt'',
              ''docs/b.TXT'', ''docs/d.txt''] (joinpath ''docs'' ''a.txt'') = 2"
    by code_simp
qed

end
